theory Spec2Isabelle
  imports Main "HOL-Library.Word" "HOL-Library.Char_ord" "HOL-Library.List_Lexorder"
    "HOL-Library.Multiset"
begin

section \<open>Namespace locks of cmd/namespace-lock.go\<close>

text \<open>
  The embedding follows cmd/namespace-lock.go function by function. The registry mutex
  \<open>lockMapMutex\<close> is not a piece of state here: every region the source runs under it is
  one definition, so a state between two such definitions is a state another goroutine
  can see, and a state inside one is not.

  Go pointers: the map holds \<open>*nsLock\<close>, and \<open>nsLock\<close> embeds \<open>*lsync.LRWMutex\<close>. A write
  through the pointer \<open>nsLk\<close> is a write to the entry of the map, so the model stores the
  entry in the map and writes it back after every change.
\<close>

subsection \<open>Collaborators whose sources are missing\<close>

text \<open>
  A \<open>context.Context\<close>: the caller's context with its cancellation state, or a context
  derived from another one by \<open>context.WithCancel\<close>. A derived context is done when its
  parent is.
\<close>

datatype "context" = Caller string bool | WithCancel "context"

fun Done :: "context \<Rightarrow> bool" where
  "Done (Caller name cancelled) = cancelled"
| "Done (WithCancel parent) = Done parent"

text \<open>
  Modelled from the spec: \<open>logger.CriticalIf\<close>, whose source is missing. The spec makes a
  negative count a fatal error that aborts, so the call stops there with
  \<open>CriticalRefBelowZero\<close>. The other values that stop a call are the panics of Go on an
  assignment into a nil map and on a nil pointer, and the release of a mutex that is not
  held in that mode.
\<close>

datatype fault = NilMapAssignment | NilDereference | CriticalRefBelowZero | MutexNotHeld

text \<open>
  Modelled from the spec: \<open>lsync.LRWMutex\<close>, whose source is missing. The spec gives it
  the writer-held state and the reader count, an acquire that grants or returns false
  when the timeout has elapsed or the context is cancelled, and releases that are only
  defined when the mutex is held in the matching mode. One call runs alone here, so an
  acquire that finds the mutex taken waits out its timeout and returns false.
\<close>

record LRWMutex =
  isWriteLock :: bool
  readers :: nat

definition NewLRWMutex :: LRWMutex where
  "NewLRWMutex = \<lparr>isWriteLock = False, readers = 0\<rparr>"

definition LRWMutex_GetLock :: "context \<Rightarrow> string \<Rightarrow> int \<Rightarrow> LRWMutex \<Rightarrow> bool \<times> LRWMutex" where
  "LRWMutex_GetLock ctx opsID timeout mu =
     (if Done ctx \<or> timeout \<le> 0 then (False, mu)
      else if isWriteLock mu \<or> readers mu \<noteq> 0 then (False, mu)
      else (True, mu\<lparr>isWriteLock := True\<rparr>))"

definition LRWMutex_GetRLock :: "context \<Rightarrow> string \<Rightarrow> int \<Rightarrow> LRWMutex \<Rightarrow> bool \<times> LRWMutex" where
  "LRWMutex_GetRLock ctx opsID timeout mu =
     (if Done ctx \<or> timeout \<le> 0 then (False, mu)
      else if isWriteLock mu then (False, mu)
      else (True, mu\<lparr>readers := Suc (readers mu)\<rparr>))"

definition LRWMutex_Unlock :: "LRWMutex \<Rightarrow> fault + LRWMutex" where
  "LRWMutex_Unlock mu =
     (if isWriteLock mu then Inr (mu\<lparr>isWriteLock := False\<rparr>) else Inl MutexNotHeld)"

definition LRWMutex_RUnlock :: "LRWMutex \<Rightarrow> fault + LRWMutex" where
  "LRWMutex_RUnlock mu =
     (if \<not> isWriteLock mu \<and> 0 < readers mu then Inr (mu\<lparr>readers := readers mu - 1\<rparr>)
      else Inl MutexNotHeld)"

text \<open>
  Modelled from the spec: \<open>DynamicTimeout\<close>, whose source is missing (only its tests are
  there). \<open>Timeout()\<close> is an atomic load of the current value, \<open>LogSuccess\<close> and
  \<open>LogFailure\<close> record an outcome. The object is shared with every other acquirer of its
  operation category, so the value of the k-th load is \<open>samples k\<close>: a constant function
  when nobody else adjusts the timeout meanwhile. The calls received are kept in order.
\<close>

datatype outcome = LogSuccessCall int | LogFailureCall

record DynamicTimeout =
  samples :: "nat \<Rightarrow> int"
  loads :: nat
  logged :: "outcome list"

definition Timeout :: "DynamicTimeout \<Rightarrow> int \<times> DynamicTimeout" where
  "Timeout dt = (samples dt (loads dt), dt\<lparr>loads := Suc (loads dt)\<rparr>)"

definition LogSuccess :: "int \<Rightarrow> DynamicTimeout \<Rightarrow> DynamicTimeout" where
  "LogSuccess d dt = dt\<lparr>logged := logged dt @ [LogSuccessCall d]\<rparr>"

definition LogFailure :: "DynamicTimeout \<Rightarrow> DynamicTimeout" where
  "LogFailure dt = dt\<lparr>logged := logged dt @ [LogFailureCall]\<rparr>"

text \<open>
  Modelled from the spec: \<open>pathJoin\<close> and \<open>pathsJoinPrefix\<close>, whose sources are missing. A
  resource name is the volume and one path joined with the separator.
\<close>

definition pathJoin :: "string \<Rightarrow> string \<Rightarrow> string" where
  "pathJoin volume path = volume @ ''/'' @ path"

definition pathsJoinPrefix :: "string \<Rightarrow> string list \<Rightarrow> string list" where
  "pathsJoinPrefix prefix elem = map (pathJoin prefix) elem"

subsection \<open>The registry\<close>

record nsLock =
  ref :: "32 word"
  mutex :: LRWMutex

text \<open>\<open>lockMap\<close> is \<open>None\<close> for the nil map of Go: a lookup finds nothing, an assignment panics.\<close>

record NsLockMap =
  isDistErasure :: bool
  lockMap :: "(string \<rightharpoonup> nsLock) option"

definition NewNSLock :: "bool \<Rightarrow> NsLockMap" where
  "NewNSLock dist =
     (let nsMutex = \<lparr>isDistErasure = dist, lockMap = None\<rparr>
      in if dist then nsMutex
         else nsMutex\<lparr>lockMap := Some Map.empty\<rparr>)"

definition lookup :: "NsLockMap \<Rightarrow> string \<Rightarrow> nsLock option" where
  "lookup n resource = (case lockMap n of None \<Rightarrow> None | Some m \<Rightarrow> m resource)"

definition assign :: "string \<Rightarrow> nsLock \<Rightarrow> NsLockMap \<Rightarrow> fault + NsLockMap" where
  "assign resource nsLk n =
     (case lockMap n of
        None \<Rightarrow> Inl NilMapAssignment
      | Some m \<Rightarrow> Inr (n\<lparr>lockMap := Some (m(resource \<mapsto> nsLk))\<rparr>))"

definition delete :: "string \<Rightarrow> NsLockMap \<Rightarrow> NsLockMap" where
  "delete resource n =
     (case lockMap n of
        None \<Rightarrow> n
      | Some m \<Rightarrow> n\<lparr>lockMap := Some (m(resource := None))\<rparr>)"

text \<open>
  The calls made on mutexes, in program order: the acquire of \<open>NsLockMap.lock\<close> with the
  timeout it passes and its result, the release of \<open>NsLockMap.unlock\<close>, and the calls of
  a distributed instance on its \<open>DRWMutex\<close> with the context they pass.
\<close>

datatype event =
    Acquire string bool string int bool
  | Release string bool
  | DAcquire bool "context" "string list" string int bool
  | DRelease bool "string list"

text \<open>
  What a call works on: the registry, the \<open>DynamicTimeout\<close> the caller passes, the clock,
  whether the peers of a distributed mutex grant, and the calls made so far.

  Modelled from the spec: \<open>UTCNow\<close>, whose source is missing. It reads the clock for the
  start timestamp and the elapsed time; the k-th reading of the clock is \<open>instants k\<close>.
  The string of \<open>getSource(2)\<close> names the caller in diagnostics only and is left out.
\<close>

record world =
  ns :: NsLockMap
  dyn :: DynamicTimeout
  instants :: "nat \<Rightarrow> int"
  ticks :: nat
  peersGrant :: bool
  trace :: "event list"

definition UTCNow :: "world \<Rightarrow> int \<times> world" where
  "UTCNow w = (instants w (ticks w), w\<lparr>ticks := Suc (ticks w)\<rparr>)"

text \<open>Lines 77 to 87 of \<open>NsLockMap.lock\<close>, under the registry mutex.\<close>

definition lock_enter :: "string \<Rightarrow> NsLockMap \<Rightarrow> fault + (nsLock \<times> NsLockMap)" where
  "lock_enter resource n =
     (let nsLk = (case lookup n resource of
                    None \<Rightarrow> \<lparr>ref = 0, mutex = NewLRWMutex\<rparr>
                  | Some found \<Rightarrow> found);
          nsLk = nsLk\<lparr>ref := ref nsLk + 1\<rparr>
      in case assign resource nsLk n of
           Inl f \<Rightarrow> Inl f
         | Inr n' \<Rightarrow> Inr (nsLk, n'))"

text \<open>Lines 98 to 107 of \<open>NsLockMap.lock\<close>, under the registry mutex again.\<close>

definition lock_leave :: "string \<Rightarrow> NsLockMap \<Rightarrow> fault + NsLockMap" where
  "lock_leave resource n =
     (case lookup n resource of
        None \<Rightarrow> Inl NilDereference
      | Some nsLk \<Rightarrow>
          (let nsLk = nsLk\<lparr>ref := ref nsLk - 1\<rparr>
           in if ref nsLk <s 0 then Inl CriticalRefBelowZero
              else if ref nsLk = 0 then Inr (delete resource n)
              else assign resource nsLk n))"

definition NsLockMap_lock ::
  "context \<Rightarrow> string \<Rightarrow> string \<Rightarrow> string \<Rightarrow> bool \<Rightarrow> int \<Rightarrow> world \<Rightarrow> fault + (bool \<times> world)" where
  "NsLockMap_lock ctx volume path opsID readLock timeout w =
     (let resource = pathJoin volume path
      in case lock_enter resource (ns w) of
           Inl f \<Rightarrow> Inl f
         | Inr (nsLk, n1) \<Rightarrow>
             (let (locked, mu) =
                    (if readLock then LRWMutex_GetRLock ctx opsID timeout (mutex nsLk)
                     else LRWMutex_GetLock ctx opsID timeout (mutex nsLk))
              in case assign resource (nsLk\<lparr>mutex := mu\<rparr>) n1 of
                   Inl f \<Rightarrow> Inl f
                 | Inr n2 \<Rightarrow>
                     (let tr = trace w @ [Acquire resource readLock opsID timeout locked]
                      in if \<not> locked
                         then (case lock_leave resource n2 of
                                 Inl f \<Rightarrow> Inl f
                               | Inr n3 \<Rightarrow> Inr (locked, w\<lparr>ns := n3, trace := tr\<rparr>))
                         else Inr (locked, w\<lparr>ns := n2, trace := tr\<rparr>))))"

definition NsLockMap_unlock :: "string \<Rightarrow> string \<Rightarrow> bool \<Rightarrow> world \<Rightarrow> fault + world" where
  "NsLockMap_unlock volume path readLock w =
     (let resource = pathJoin volume path
      in case lookup (ns w) resource of
           None \<Rightarrow> Inr w
         | Some nsLk \<Rightarrow>
             (case (if readLock then LRWMutex_RUnlock (mutex nsLk)
                    else LRWMutex_Unlock (mutex nsLk)) of
                Inl f \<Rightarrow> Inl f
              | Inr mu \<Rightarrow>
                  (let tr = trace w @ [Release resource readLock];
                       nsLk = nsLk\<lparr>mutex := mu, ref := ref nsLk - 1\<rparr>
                   in if ref nsLk <s 0 then Inl CriticalRefBelowZero
                      else if ref nsLk = 0
                        then Inr (w\<lparr>ns := delete resource (ns w), trace := tr\<rparr>)
                        else (case assign resource nsLk (ns w) of
                                Inl f \<Rightarrow> Inl f
                              | Inr n' \<Rightarrow> Inr (w\<lparr>ns := n', trace := tr\<rparr>)))))"

subsection \<open>Lock instances\<close>

text \<open>
  Modelled from the spec: \<open>dsync.DRWMutex\<close>, whose source is missing. It has the shape of
  the local mutex, its state lives in the peers, and an acquire is granted when a quorum
  of them grants before the timeout or the cancellation of the context it was given.
  \<open>Names\<close> are the names \<open>NewDRWMutex\<close> is called with, in the order of the call.
\<close>

record DRWMutex =
  Names :: "string list"

definition NewDRWMutex :: "string list \<Rightarrow> DRWMutex" where
  "NewDRWMutex names = \<lparr>Names = names\<rparr>"

definition DRWMutex_acquire :: "context \<Rightarrow> int \<Rightarrow> world \<Rightarrow> bool" where
  "DRWMutex_acquire ctx timeout w = (\<not> Done ctx \<and> 0 < timeout \<and> peersGrant w)"

record distLockInstance =
  rwMutex :: DRWMutex
  d_opsID :: string

text \<open>The field \<open>ns\<close> of a local instance points to the registry, which is \<open>ns\<close> of the world.\<close>

record localLockInstance =
  volume :: string
  paths :: "string list"
  opsID :: string

datatype RWLocker = Dist distLockInstance | Local localLockInstance

text \<open>
  \<open>sort.Strings\<close> orders strings bytewise; \<open>sort\<close> does so on \<open>char list\<close> with the order
  of the character codes. The operation identifier that \<open>mustGetUUID()\<close> draws is the
  argument \<open>uuid\<close>.
\<close>

definition NsLockMap_NewNSLock :: "string \<Rightarrow> NsLockMap \<Rightarrow> string \<Rightarrow> string list \<Rightarrow> RWLocker" where
  "NsLockMap_NewNSLock uuid n vol ps =
     (let opsID = uuid
      in if isDistErasure n
         then (let drwmutex = NewDRWMutex (pathsJoinPrefix vol ps)
               in Dist \<lparr>rwMutex = drwmutex, d_opsID = opsID\<rparr>)
         else (let ps = sort ps
               in Local \<lparr>volume = vol, paths = ps, opsID = opsID\<rparr>))"

datatype lock_error = OperationTimedOut

type_synonym lock_result = "context option \<times> lock_error option"

text \<open>Lines 217 to 221: the loop over \<open>success\<close>, from index \<open>si\<close> on.\<close>

fun unwind :: "localLockInstance \<Rightarrow> bool \<Rightarrow> nat \<Rightarrow> int list \<Rightarrow> world \<Rightarrow> fault + world" where
  "unwind li readLock si [] w = Inr w"
| "unwind li readLock si (sint_v # rest) w =
     (if sint_v = 1
      then (case NsLockMap_unlock (volume li) (paths li ! si) readLock w of
              Inl f \<Rightarrow> Inl f
            | Inr w' \<Rightarrow> unwind li readLock (Suc si) rest w')
      else unwind li readLock (Suc si) rest w)"

text \<open>
  Lines 214 to 225: the loop over the paths, from index \<open>i\<close> on. The result is
  \<open>False\<close> for the return inside the loop and \<open>True\<close> when the loop runs to its end.
\<close>

fun lockPaths ::
  "localLockInstance \<Rightarrow> context \<Rightarrow> bool \<Rightarrow> nat \<Rightarrow> string list \<Rightarrow> int list \<Rightarrow> world
   \<Rightarrow> fault + (bool \<times> world)" where
  "lockPaths li ctx readLock i [] success w = Inr (True, w)"
| "lockPaths li ctx readLock i (path # rest) success w =
     (let (t, dt) = Timeout (dyn w)
      in case NsLockMap_lock ctx (volume li) path (opsID li) readLock t (w\<lparr>dyn := dt\<rparr>) of
           Inl f \<Rightarrow> Inl f
         | Inr (locked, w1) \<Rightarrow>
             if \<not> locked
             then (case unwind li readLock 0 success (w1\<lparr>dyn := LogFailure (dyn w1)\<rparr>) of
                     Inl f \<Rightarrow> Inl f
                   | Inr w2 \<Rightarrow> Inr (False, w2))
             else lockPaths li ctx readLock (Suc i) rest (success[i := 1]) w1)"

definition localLockInstance_acquire ::
  "bool \<Rightarrow> localLockInstance \<Rightarrow> context \<Rightarrow> world \<Rightarrow> fault + (lock_result \<times> world)" where
  "localLockInstance_acquire readLock li ctx w =
     (let (start, w0) = UTCNow w;
          success = replicate (length (paths li)) (0::int)
      in case lockPaths li ctx readLock 0 (paths li) success w0 of
           Inl f \<Rightarrow> Inl f
         | Inr (False, w1) \<Rightarrow> Inr ((None, Some OperationTimedOut), w1)
         | Inr (True, w1) \<Rightarrow>
             (let (now, w2) = UTCNow w1
              in Inr ((Some ctx, None), w2\<lparr>dyn := LogSuccess (now - start) (dyn w2)\<rparr>)))"

text \<open>\<open>GetLock\<close> and \<open>GetRLock\<close> of a local instance differ in the constant \<open>readLock\<close> only.\<close>

definition localLockInstance_GetLock ::
  "localLockInstance \<Rightarrow> context \<Rightarrow> world \<Rightarrow> fault + (lock_result \<times> world)" where
  "localLockInstance_GetLock li ctx w = localLockInstance_acquire False li ctx w"

definition localLockInstance_GetRLock ::
  "localLockInstance \<Rightarrow> context \<Rightarrow> world \<Rightarrow> fault + (lock_result \<times> world)" where
  "localLockInstance_GetRLock li ctx w = localLockInstance_acquire True li ctx w"

fun unlockPaths :: "localLockInstance \<Rightarrow> bool \<Rightarrow> string list \<Rightarrow> world \<Rightarrow> fault + world" where
  "unlockPaths li readLock [] w = Inr w"
| "unlockPaths li readLock (path # rest) w =
     (case NsLockMap_unlock (volume li) path readLock w of
        Inl f \<Rightarrow> Inl f
      | Inr w' \<Rightarrow> unlockPaths li readLock rest w')"

definition localLockInstance_Unlock :: "localLockInstance \<Rightarrow> world \<Rightarrow> fault + world" where
  "localLockInstance_Unlock li w = unlockPaths li False (paths li) w"

definition localLockInstance_RUnlock :: "localLockInstance \<Rightarrow> world \<Rightarrow> fault + world" where
  "localLockInstance_RUnlock li w = unlockPaths li True (paths li) w"

text \<open>
  The distributed instance. \<open>GetLock\<close> hands \<open>newCtx\<close> to the mutex, \<open>GetRLock\<close> hands
  \<open>ctx\<close>; both return \<open>ctx\<close> with the error and \<open>newCtx\<close> with success.
\<close>

definition distLockInstance_GetLock ::
  "distLockInstance \<Rightarrow> context \<Rightarrow> world \<Rightarrow> lock_result \<times> world" where
  "distLockInstance_GetLock di ctx w =
     (let (start, w0) = UTCNow w;
          newCtx = WithCancel ctx;
          (t, dt) = Timeout (dyn w0);
          w1 = w0\<lparr>dyn := dt\<rparr>;
          locked = DRWMutex_acquire newCtx t w1;
          w2 = w1\<lparr>trace := trace w1 @ [DAcquire False newCtx (Names (rwMutex di)) (d_opsID di) t locked]\<rparr>
      in if \<not> locked
         then ((Some ctx, Some OperationTimedOut), w2\<lparr>dyn := LogFailure (dyn w2)\<rparr>)
         else (let (now, w3) = UTCNow w2
               in ((Some newCtx, None), w3\<lparr>dyn := LogSuccess (now - start) (dyn w3)\<rparr>)))"

definition distLockInstance_GetRLock ::
  "distLockInstance \<Rightarrow> context \<Rightarrow> world \<Rightarrow> lock_result \<times> world" where
  "distLockInstance_GetRLock di ctx w =
     (let (start, w0) = UTCNow w;
          newCtx = WithCancel ctx;
          (t, dt) = Timeout (dyn w0);
          w1 = w0\<lparr>dyn := dt\<rparr>;
          locked = DRWMutex_acquire ctx t w1;
          w2 = w1\<lparr>trace := trace w1 @ [DAcquire True ctx (Names (rwMutex di)) (d_opsID di) t locked]\<rparr>
      in if \<not> locked
         then ((Some ctx, Some OperationTimedOut), w2\<lparr>dyn := LogFailure (dyn w2)\<rparr>)
         else (let (now, w3) = UTCNow w2
               in ((Some newCtx, None), w3\<lparr>dyn := LogSuccess (now - start) (dyn w3)\<rparr>)))"

definition distLockInstance_Unlock :: "distLockInstance \<Rightarrow> world \<Rightarrow> world" where
  "distLockInstance_Unlock di w = w\<lparr>trace := trace w @ [DRelease False (Names (rwMutex di))]\<rparr>"

definition distLockInstance_RUnlock :: "distLockInstance \<Rightarrow> world \<Rightarrow> world" where
  "distLockInstance_RUnlock di w = w\<lparr>trace := trace w @ [DRelease True (Names (rwMutex di))]\<rparr>"

subsection \<open>Notions for stating the properties\<close>

text \<open>
  The registry invariant of the data model: every entry of the map has a count above
  zero (as the signed reading of the \<open>int32\<close>). \<open>refHeadroom k\<close> says that no count
  of the registry can wrap around within \<open>k\<close> further references.
\<close>

definition nsInvariant :: "NsLockMap \<Rightarrow> bool" where
  "nsInvariant n = (\<forall>resource nsLk. lookup n resource = Some nsLk \<longrightarrow> 0 <s ref nsLk)"


text \<open>
  A resource is granted in a mode when its entry is there and its mutex is held in that
  mode: by the writer, or by at least one reader and no writer.
\<close>

definition grantedIn :: "bool \<Rightarrow> NsLockMap \<Rightarrow> string \<Rightarrow> bool" where
  "grantedIn readLock n resource =
     (case lookup n resource of
        None \<Rightarrow> False
      | Some nsLk \<Rightarrow>
          if readLock then \<not> isWriteLock (mutex nsLk) \<and> 0 < readers (mutex nsLk)
          else isWriteLock (mutex nsLk))"

text \<open>
  Readings of the calls made on mutexes: the resources and modes of the granted
  acquires, of the failed acquires and of the releases, and the timeout bounds of the
  acquires, each in program order.
\<close>

fun grantedOf :: "event list \<Rightarrow> (string \<times> bool) list" where
  "grantedOf [] = []"
| "grantedOf (Acquire resource readLock ops t locked # es) =
     (if locked then (resource, readLock) # grantedOf es else grantedOf es)"
| "grantedOf (e # es) = grantedOf es"

fun failedOf :: "event list \<Rightarrow> (string \<times> bool) list" where
  "failedOf [] = []"
| "failedOf (Acquire resource readLock ops t locked # es) =
     (if locked then failedOf es else (resource, readLock) # failedOf es)"
| "failedOf (e # es) = failedOf es"

fun releasedOf :: "event list \<Rightarrow> (string \<times> bool) list" where
  "releasedOf [] = []"
| "releasedOf (Release resource readLock # es) = (resource, readLock) # releasedOf es"
| "releasedOf (e # es) = releasedOf es"

fun timeoutsOf :: "event list \<Rightarrow> int list" where
  "timeoutsOf [] = []"
| "timeoutsOf (Acquire resource readLock ops t locked # es) = t # timeoutsOf es"
| "timeoutsOf (e # es) = timeoutsOf es"

text \<open>A call that leaves the \<open>DynamicTimeout\<close>, the clock and the peers as they are.\<close>

definition sameEnv :: "world \<Rightarrow> world \<Rightarrow> bool" where
  "sameEnv w w' = (dyn w' = dyn w \<and> instants w' = instants w \<and> ticks w' = ticks w
                   \<and> peersGrant w' = peersGrant w)"

text \<open>
  The two mutex calls of the registry by mode, the entry \<open>NsLockMap.lock\<close> works on
  (the one found, or the fresh one), and the world with another registry map.
\<close>

definition acquireMu :: "bool \<Rightarrow> context \<Rightarrow> string \<Rightarrow> int \<Rightarrow> LRWMutex \<Rightarrow> bool \<times> LRWMutex" where
  "acquireMu readLock ctx ops timeout mu =
     (if readLock then LRWMutex_GetRLock ctx ops timeout mu else LRWMutex_GetLock ctx ops timeout mu)"

definition releaseMu :: "bool \<Rightarrow> LRWMutex \<Rightarrow> fault + LRWMutex" where
  "releaseMu readLock mu = (if readLock then LRWMutex_RUnlock mu else LRWMutex_Unlock mu)"

definition entryOf :: "nsLock option \<Rightarrow> nsLock" where
  "entryOf x = (case x of None \<Rightarrow> \<lparr>ref = 0, mutex = NewLRWMutex\<rparr> | Some found \<Rightarrow> found)"

definition setMap :: "(string \<rightharpoonup> nsLock) \<Rightarrow> world \<Rightarrow> world" where
  "setMap m w = w\<lparr>ns := (ns w)\<lparr>lockMap := Some m\<rparr>\<rparr>"






subsection \<open>Sample states\<close>

text \<open>
  A caller's context that is not cancelled, a fresh local registry with a clock and a
  \<open>DynamicTimeout\<close> whose first load gives 5 and every later one 10, and an instance on
  two paths of the volume \<open>b\<close>.
\<close>

definition exCtx :: "context" where
  "exCtx = Caller ''c'' False"

definition exWorld :: world where
  "exWorld =
     \<lparr>ns = NewNSLock False,
      dyn = \<lparr>samples = (\<lambda>k. if k = 0 then 5 else 10), loads = 0, logged = []\<rparr>,
      instants = (\<lambda>k. 7 * int k), ticks = 0, peersGrant = True, trace = []\<rparr>"

definition exLocal :: localLockInstance where
  "exLocal = \<lparr>volume = ''b'', paths = [''a'', ''z''], opsID = ''op''\<rparr>"

text \<open>
  The same with \<open>b/z\<close> held by a writer, and with \<open>b/a\<close> held by readers whose count
  has reached the largest \<open>int32\<close>.
\<close>

definition exHeld :: world where
  "exHeld = exWorld\<lparr>ns := \<lparr>isDistErasure = False,
       lockMap = Some [''b/z'' \<mapsto> \<lparr>ref = 1, mutex = \<lparr>isWriteLock = True, readers = 0\<rparr>\<rparr>]\<rparr>\<rparr>"

definition exFull :: world where
  "exFull = exWorld\<lparr>ns := \<lparr>isDistErasure = False,
       lockMap = Some [''b/a'' \<mapsto> \<lparr>ref = 2147483647, mutex = \<lparr>isWriteLock = False, readers = 2147483647\<rparr>\<rparr>]\<rparr>\<rparr>"

text \<open>The worlds that the sample calls on these states return.\<close>

definition exGranted :: world where
  "exGranted = exWorld
     \<lparr>ns := \<lparr>isDistErasure = False,
              lockMap = Some [''b/a'' \<mapsto> \<lparr>ref = 1, mutex = \<lparr>isWriteLock = True, readers = 0\<rparr>\<rparr>,
                              ''b/z'' \<mapsto> \<lparr>ref = 1, mutex = \<lparr>isWriteLock = True, readers = 0\<rparr>\<rparr>]\<rparr>,
       dyn := \<lparr>samples = (\<lambda>k. if k = 0 then 5 else 10), loads = 2, logged = [LogSuccessCall 7]\<rparr>,
       ticks := 2,
       trace := [Acquire ''b/a'' False ''op'' 5 True, Acquire ''b/z'' False ''op'' 10 True]\<rparr>"

definition exUnwound :: world where
  "exUnwound = exHeld
     \<lparr>dyn := \<lparr>samples = (\<lambda>k. if k = 0 then 5 else 10), loads = 2, logged = [LogFailureCall]\<rparr>,
       ticks := 1,
       trace := [Acquire ''b/a'' False ''op'' 5 True, Acquire ''b/z'' False ''op'' 10 False,
                 Release ''b/a'' False]\<rparr>"

definition exWrapped :: world where
  "exWrapped = exFull
     \<lparr>ns := \<lparr>isDistErasure = False,
              lockMap = Some [''b/a'' \<mapsto> \<lparr>ref = 2147483647 + 1,
                                            mutex = \<lparr>isWriteLock = False, readers = 2147483648\<rparr>\<rparr>]\<rparr>,
       trace := [Acquire ''b/a'' True ''op'' 5 True]\<rparr>"


section \<open>Properties\<close>

subsection \<open>Evaluation and frame lemmas\<close>

lemmas registry_defs =
  NsLockMap_lock_def NsLockMap_unlock_def lock_enter_def lock_leave_def lookup_def
  assign_def delete_def pathJoin_def NewNSLock_def
  LRWMutex_GetLock_def LRWMutex_GetRLock_def LRWMutex_Unlock_def LRWMutex_RUnlock_def
  NewLRWMutex_def word_sless_alt

lemmas instance_defs =
  localLockInstance_GetLock_def localLockInstance_GetRLock_def localLockInstance_acquire_def
  UTCNow_def Timeout_def LogSuccess_def LogFailure_def Let_def

lemma context_not_own_child: "ctx \<noteq> WithCancel ctx"
  by (induction ctx) auto

subsection \<open>The registry under one call\<close>

lemma inc_dec [simp]: "(x::32 word) + 1 - 1 = x" by simp

lemma lock_effect:
  assumes "lockMap (ns w) = Some m"
  shows "NsLockMap_lock ctx vol p ops rl t w =
     (let r = pathJoin vol p; e0 = entryOf (m r);
          res = acquireMu rl ctx ops t (mutex e0);
          tr = trace w @ [Acquire r rl ops t (fst res)]
      in if fst res then Inr (True, (setMap (m(r \<mapsto> e0\<lparr>ref := ref e0 + 1, mutex := snd res\<rparr>)) w)\<lparr>trace := tr\<rparr>)
         else if ref e0 <s 0 then Inl CriticalRefBelowZero
         else if ref e0 = 0 then Inr (False, (setMap (m(r := None)) w)\<lparr>trace := tr\<rparr>)
         else Inr (False, (setMap (m(r \<mapsto> e0\<lparr>mutex := snd res\<rparr>)) w)\<lparr>trace := tr\<rparr>))"
  using assms
  by (auto simp: NsLockMap_lock_def lock_enter_def lock_leave_def lookup_def assign_def delete_def
        entryOf_def acquireMu_def setMap_def Let_def split: option.splits prod.splits)

lemma unlock_effect:
  assumes "lockMap (ns w) = Some m" "m (pathJoin vol p) = Some e"
  shows "NsLockMap_unlock vol p rl w =
     (let r = pathJoin vol p; tr = trace w @ [Release r rl]
      in case releaseMu rl (mutex e) of
           Inl f \<Rightarrow> Inl f
         | Inr mu \<Rightarrow>
             if ref e - 1 <s 0 then Inl CriticalRefBelowZero
             else if ref e - 1 = 0 then Inr ((setMap (m(r := None)) w)\<lparr>trace := tr\<rparr>)
             else Inr ((setMap (m(r \<mapsto> e\<lparr>mutex := mu, ref := ref e - 1\<rparr>)) w)\<lparr>trace := tr\<rparr>))"
  using assms
  by (auto simp: NsLockMap_unlock_def lookup_def assign_def delete_def
        releaseMu_def setMap_def Let_def split: option.splits prod.splits sum.splits)












lemma acquire_granted:
  "fst (acquireMu rl ctx ops t mu) \<Longrightarrow>
     \<not> isWriteLock mu \<and> (rl \<or> readers mu = 0)
     \<and> snd (acquireMu rl ctx ops t mu)
         = (if rl then mu\<lparr>readers := Suc (readers mu)\<rparr> else mu\<lparr>isWriteLock := True\<rparr>)"
  by (auto simp: acquireMu_def LRWMutex_GetLock_def LRWMutex_GetRLock_def split: if_splits)

lemma entryOf_Some [simp]: "entryOf (Some e) = e"
  by (simp add: entryOf_def)






lemma grantedOf_append [simp]: "grantedOf (xs @ ys) = grantedOf xs @ grantedOf ys"
  by (induction xs rule: grantedOf.induct) auto
lemma failedOf_append [simp]: "failedOf (xs @ ys) = failedOf xs @ failedOf ys"
  by (induction xs rule: failedOf.induct) auto
lemma releasedOf_append [simp]: "releasedOf (xs @ ys) = releasedOf xs @ releasedOf ys"
  by (induction xs rule: releasedOf.induct) auto

lemma releases_only [simp]:
  "grantedOf (map (\<lambda>q. Release (f q) rl) qs) = []"
  "failedOf (map (\<lambda>q. Release (f q) rl) qs) = []"
  "releasedOf (map (\<lambda>q. Release (f q) rl) qs) = map (\<lambda>q. (f q, rl)) qs"
  by (induction qs) auto


lemma setMap_setMap [simp]: "setMap m' (setMap m w\<lparr>trace := t\<rparr>) = setMap m' w\<lparr>trace := t\<rparr>"
  by (simp add: setMap_def)

lemma lockMap_setMap [simp]: "lockMap (ns (setMap m w)) = Some m"
  by (simp add: setMap_def)

lemma trace_setMap [simp]: "trace (setMap m w) = trace w"
  by (simp add: setMap_def)







lemma nsInvariantI: "lockMap n = Some m \<Longrightarrow> (\<And>r e. m r = Some e \<Longrightarrow> 0 <s ref e) \<Longrightarrow> nsInvariant n"
  by (simp add: nsInvariant_def lookup_def)

lemma nsInvariant_nil: "lockMap n = None \<Longrightarrow> nsInvariant n"
  by (simp add: nsInvariant_def lookup_def)

lemma lock_needs_map: "NsLockMap_lock ctx vol p ops rl t w = Inr x \<Longrightarrow> \<exists>m. lockMap (ns w) = Some m"
  by (cases "lockMap (ns w)") (auto simp: NsLockMap_lock_def lock_enter_def assign_def Let_def)
















lemma timeoutsOf_append [simp]: "timeoutsOf (xs @ ys) = timeoutsOf xs @ timeoutsOf ys"
  by (induction xs rule: timeoutsOf.induct) auto

lemma lock_frame:
  assumes "NsLockMap_lock ctx vol p ops rl t w = Inr (b, w')"
  shows "sameEnv w w' \<and> trace w' = trace w @ [Acquire (pathJoin vol p) rl ops t b]"
proof -
  from lock_needs_map [OF assms] obtain m where map: "lockMap (ns w) = Some m" ..
  from assms show ?thesis
    by (auto simp: lock_effect [OF map] Let_def setMap_def sameEnv_def split: if_splits)
qed

lemma unlock_frame:
  assumes "NsLockMap_unlock vol p rl w = Inr w'"
  shows "sameEnv w w' \<and> (trace w' = trace w \<or> trace w' = trace w @ [Release (pathJoin vol p) rl])"
proof (cases "lookup (ns w) (pathJoin vol p)")
  case None
  with assms show ?thesis by (simp add: NsLockMap_unlock_def sameEnv_def)
next
  case (Some e)
  then obtain m where map: "lockMap (ns w) = Some m" and here: "m (pathJoin vol p) = Some e"
    by (auto simp: lookup_def split: option.splits)
  from assms show ?thesis
    by (auto simp: unlock_effect [OF map here] Let_def setMap_def sameEnv_def split: if_splits sum.splits)
qed

lemma sameEnv_trans: "sameEnv a b \<Longrightarrow> sameEnv b c \<Longrightarrow> sameEnv a c"
  by (simp add: sameEnv_def)

lemma unwind_frame:
  "unwind li rl si xs w = Inr w' \<Longrightarrow>
     sameEnv w w' \<and> (\<exists>rs. trace w' = trace w @ rs \<and> timeoutsOf rs = [] \<and> grantedOf rs = []
                           \<and> failedOf rs = [])"
proof (induction xs arbitrary: si w)
  case Nil
  then show ?case by (simp add: sameEnv_def)
next
  case (Cons x xs)
  show ?case
  proof (cases "x = 1")
    case False
    with Cons show ?thesis by simp
  next
    case True
    with Cons.prems obtain w1 where
      u: "NsLockMap_unlock (volume li) (paths li ! si) rl w = Inr w1"
      and rest: "unwind li rl (Suc si) xs w1 = Inr w'"
      by (auto split: sum.splits)
    from Cons.IH [OF rest] obtain rs where
      r: "sameEnv w1 w'" "trace w' = trace w1 @ rs" "timeoutsOf rs = []" "grantedOf rs = []" "failedOf rs = []"
      by blast
    from unlock_frame [OF u] have
      f: "sameEnv w w1" and t: "trace w1 = trace w \<or> trace w1 = trace w @ [Release (pathJoin (volume li) (paths li ! si)) rl]"
      by simp_all
    from t show ?thesis
    proof
      assume "trace w1 = trace w"
      with r sameEnv_trans [OF f r(1)] show ?thesis by auto
    next
      assume "trace w1 = trace w @ [Release (pathJoin (volume li) (paths li ! si)) rl]"
      with r sameEnv_trans [OF f r(1)] show ?thesis
        by (intro conjI exI [of _ "Release (pathJoin (volume li) (paths li ! si)) rl # rs"]) simp_all
    qed
  qed
qed

lemma lockPaths_timeouts:
  "lockPaths li ctx rl i ps success w = Inr (b, w') \<Longrightarrow>
     samples (dyn w') = samples (dyn w)
     \<and> loads (dyn w) \<le> loads (dyn w')
     \<and> loads (dyn w') \<le> loads (dyn w) + length ps
     \<and> (b \<longrightarrow> loads (dyn w') = loads (dyn w) + length ps)
     \<and> (\<exists>new. trace w' = trace w @ new
           \<and> timeoutsOf new = map (samples (dyn w)) [loads (dyn w) ..< loads (dyn w')])"
proof (induction ps arbitrary: i success w)
  case Nil
  then show ?case by simp
next
  case (Cons p ps)
  let ?t = "samples (dyn w) (loads (dyn w))"
  let ?w0 = "w\<lparr>dyn := (dyn w)\<lparr>loads := Suc (loads (dyn w))\<rparr>\<rparr>"
  from Cons.prems obtain l w1 where
    run: "NsLockMap_lock ctx (volume li) p (opsID li) rl ?t ?w0 = Inr (l, w1)"
    by (auto simp: Timeout_def split: sum.splits)
  from lock_frame [OF run] have
    f: "dyn w1 = dyn ?w0" and t: "trace w1 = trace w @ [Acquire (pathJoin (volume li) p) rl (opsID li) ?t l]"
    by (simp_all add: sameEnv_def)
  have up: "[loads (dyn w) ..< Suc (loads (dyn w)) + k] = loads (dyn w) # [Suc (loads (dyn w)) ..< Suc (loads (dyn w)) + k]" for k
    by (simp add: upt_conv_Cons)
  show ?case
  proof (cases l)
    case False
    with Cons.prems run obtain w2 where
      u: "unwind li rl 0 success (w1\<lparr>dyn := LogFailure (dyn w1)\<rparr>) = Inr w2" and w': "w' = w2"
      and nb: "\<not> b"
      by (auto simp: Timeout_def split: sum.splits)
    from unwind_frame [OF u] obtain rs where
      "dyn w2 = LogFailure (dyn w1)" "trace w2 = trace w1 @ rs" "timeoutsOf rs = []"
      by (auto simp: sameEnv_def)
    with f t w' nb up [of 0] show ?thesis
      by (simp add: LogFailure_def)
  next
    case True
    with Cons.prems run have rec: "lockPaths li ctx rl (Suc i) ps (success[i := 1]) w1 = Inr (b, w')"
      by (simp add: Timeout_def)
    from Cons.IH [OF rec] f obtain new where
      a: "samples (dyn w') = samples (dyn w)"
         "Suc (loads (dyn w)) \<le> loads (dyn w')"
         "loads (dyn w') \<le> Suc (loads (dyn w)) + length ps"
         "b \<longrightarrow> loads (dyn w') = Suc (loads (dyn w)) + length ps"
         "trace w' = trace w1 @ new"
         "timeoutsOf new = map (samples (dyn w)) [Suc (loads (dyn w)) ..< loads (dyn w')]"
      by auto
    from a(2) obtain k where k: "loads (dyn w') = Suc (loads (dyn w)) + k"
      using le_Suc_ex by blast
    with a t up [of k] show ?thesis
      by simp
  qed
qed

lemma lock_grants:
  assumes "NsLockMap_lock ctx vol p ops rl t w = Inr (True, w')"
  shows "grantedIn rl (ns w') (pathJoin vol p)
       \<and> (\<forall>r. grantedIn rl (ns w) r \<longrightarrow> grantedIn rl (ns w') r)"
proof -
  from lock_needs_map [OF assms] obtain m where map: "lockMap (ns w) = Some m" ..
  let ?e0 = "entryOf (m (pathJoin vol p))"
  from assms have got: "fst (acquireMu rl ctx ops t (mutex ?e0))"
    by (auto simp: lock_effect [OF map] Let_def split: if_splits)
  from assms acquire_granted [OF got] map show ?thesis
    by (auto simp: lock_effect [OF map] Let_def setMap_def grantedIn_def lookup_def split: if_splits)
qed

lemma lockPaths_success:
  "lockPaths li ctx rl i ps success w = Inr (True, w') \<Longrightarrow>
     logged (dyn w') = logged (dyn w) \<and> ticks w' = ticks w \<and> instants w' = instants w
     \<and> (\<forall>p\<in>set ps. grantedIn rl (ns w') (pathJoin (volume li) p))
     \<and> (\<forall>r. grantedIn rl (ns w) r \<longrightarrow> grantedIn rl (ns w') r)
     \<and> (\<exists>new. trace w' = trace w @ new
           \<and> grantedOf new = map (\<lambda>q. (pathJoin (volume li) q, rl)) ps
           \<and> failedOf new = [] \<and> releasedOf new = [])"
proof (induction ps arbitrary: i success w)
  case Nil
  then show ?case by simp
next
  case (Cons p ps)
  let ?t = "samples (dyn w) (loads (dyn w))"
  let ?w0 = "w\<lparr>dyn := (dyn w)\<lparr>loads := Suc (loads (dyn w))\<rparr>\<rparr>"
  from Cons.prems obtain w1 where
    run: "NsLockMap_lock ctx (volume li) p (opsID li) rl ?t ?w0 = Inr (True, w1)"
    and rec: "lockPaths li ctx rl (Suc i) ps (success[i := 1]) w1 = Inr (True, w')"
    by (auto simp: Timeout_def split: sum.splits if_splits)
  from lock_frame [OF run] have
    f: "sameEnv ?w0 w1" and t: "trace w1 = trace w @ [Acquire (pathJoin (volume li) p) rl (opsID li) ?t True]"
    by simp_all
  from lock_grants [OF run] have
    g: "grantedIn rl (ns w1) (pathJoin (volume li) p)" "\<And>r. grantedIn rl (ns w) r \<Longrightarrow> grantedIn rl (ns w1) r"
    by simp_all
  from Cons.IH [OF rec] obtain new where
    a: "logged (dyn w') = logged (dyn w1)" "ticks w' = ticks w1" "instants w' = instants w1"
       "\<forall>p\<in>set ps. grantedIn rl (ns w') (pathJoin (volume li) p)"
       "\<And>r. grantedIn rl (ns w1) r \<Longrightarrow> grantedIn rl (ns w') r"
       "trace w' = trace w1 @ new"
       "grantedOf new = map (\<lambda>q. (pathJoin (volume li) q, rl)) ps"
       "failedOf new = []" "releasedOf new = []"
    by blast
  have "trace w' = trace w @ (Acquire (pathJoin (volume li) p) rl (opsID li) ?t True # new)"
    using a(6) t by simp
  moreover have "grantedOf (Acquire (pathJoin (volume li) p) rl (opsID li) ?t True # new)
      = map (\<lambda>q. (pathJoin (volume li) q, rl)) (p # ps)"
    "failedOf (Acquire (pathJoin (volume li) p) rl (opsID li) ?t True # new) = []"
    "releasedOf (Acquire (pathJoin (volume li) p) rl (opsID li) ?t True # new) = []"
    using a(7-9) by simp_all
  ultimately have "\<exists>new. trace w' = trace w @ new
           \<and> grantedOf new = map (\<lambda>q. (pathJoin (volume li) q, rl)) (p # ps)
           \<and> failedOf new = [] \<and> releasedOf new = []" by blast
  with a(1-5) f g show ?case
    by (auto simp: sameEnv_def)
qed

subsection \<open>Sample runs\<close>

lemmas sample_defs = exWorld_def exHeld_def exFull_def exGranted_def exUnwound_def exWrapped_def
  exLocal_def exCtx_def

lemma run_exGranted:
  "localLockInstance_GetLock exLocal exCtx exWorld = Inr ((Some exCtx, None), exGranted)"
  by (simp add: instance_defs registry_defs sample_defs)






subsection \<open>A local acquire that times out\<close>




subsection \<open>A local acquire that succeeds\<close>

text \<open>
  C3. When \<open>GetLock\<close> or \<open>GetRLock\<close> of a local instance returns without error, the
  returned context is the caller's, every path of the instance is granted in the mode
  of the call in the registry it leaves, the acquires made are one granted acquire for
  each path in order with no failed acquire and no release, and \<open>LogSuccess\<close> has been
  recorded once, with the difference of the two clock readings of the call.
\<close>

theorem local_acquire_success_grants:
  assumes "(if readLock then localLockInstance_GetRLock li ctx w
            else localLockInstance_GetLock li ctx w) = Inr ((c, None), w')"
  shows "c = Some ctx
       \<and> (\<forall>p\<in>set (paths li). grantedIn readLock (ns w') (pathJoin (volume li) p))
       \<and> logged (dyn w')
           = logged (dyn w) @ [LogSuccessCall (instants w (Suc (ticks w)) - instants w (ticks w))]
       \<and> (\<exists>new. trace w' = trace w @ new
             \<and> grantedOf new = map (\<lambda>p. (pathJoin (volume li) p, readLock)) (paths li)
             \<and> failedOf new = [] \<and> releasedOf new = [])"
proof -
  let ?w0 = "w\<lparr>ticks := Suc (ticks w)\<rparr>"
  from assms have acq: "localLockInstance_acquire readLock li ctx w = Inr ((c, None), w')"
    by (simp add: localLockInstance_GetLock_def localLockInstance_GetRLock_def split: if_splits)
  then obtain w1 where
    run: "lockPaths li ctx readLock 0 (paths li) (replicate (length (paths li)) 0) ?w0
            = Inr (True, w1)"
    and c: "c = Some ctx"
    and w': "w' = w1\<lparr>ticks := Suc (ticks w1),
                     dyn := LogSuccess (instants w1 (ticks w1) - instants w (ticks w)) (dyn w1)\<rparr>"
    by (auto simp: localLockInstance_acquire_def UTCNow_def Let_def
          split: sum.splits prod.splits bool.splits)
  from lockPaths_success [OF run] c w' show ?thesis
    by (simp add: LogSuccess_def)
qed

theorem local_acquire_success_grants_witness:
  "(if False then localLockInstance_GetRLock exLocal exCtx exWorld
    else localLockInstance_GetLock exLocal exCtx exWorld) = Inr ((Some exCtx, None), exGranted)
   \<and> grantedIn False (ns exGranted) (pathJoin (volume exLocal) ''a'')
   \<and> grantedIn False (ns exGranted) (pathJoin (volume exLocal) ''z'')
   \<and> logged (dyn exGranted) = logged (dyn exWorld) @ [LogSuccessCall 7]"
proof -
  have run: "(if False then localLockInstance_GetRLock exLocal exCtx exWorld
    else localLockInstance_GetLock exLocal exCtx exWorld) = Inr ((Some exCtx, None), exGranted)"
    using run_exGranted by simp
  from local_acquire_success_grants [OF run] run show ?thesis
    by (simp add: exLocal_def exWorld_def)
qed

subsection \<open>Acquire, then release\<close>



subsection \<open>The timeout bound of the sub-acquires\<close>

text \<open>
  C7, as the code has it. \<open>GetLock\<close> and \<open>GetRLock\<close> of a local instance load
  \<open>Timeout()\<close> once for every path they attempt, right before the sub-acquire of that
  path, and pass the value of that load as its bound: the bounds of the sub-acquires are
  the values of consecutive loads, at most one for each path and exactly one for each
  path when the call succeeds. They all coincide when the \<open>DynamicTimeout\<close> gives the
  same value at every load.
\<close>

theorem local_acquire_loads_timeout_per_path:
  assumes "(if readLock then localLockInstance_GetRLock li ctx w
            else localLockInstance_GetLock li ctx w) = Inr (r, w')"
  shows "\<exists>new. trace w' = trace w @ new
           \<and> timeoutsOf new = map (samples (dyn w)) [loads (dyn w) ..< loads (dyn w')]
           \<and> loads (dyn w') \<le> loads (dyn w) + length (paths li)
           \<and> (snd r = None \<longrightarrow> loads (dyn w') = loads (dyn w) + length (paths li))
           \<and> ((\<forall>k. samples (dyn w) k = c)
                \<longrightarrow> timeoutsOf new = replicate (length (timeoutsOf new)) c)"
proof -
  let ?w0 = "w\<lparr>ticks := Suc (ticks w)\<rparr>"
  from assms have acq: "localLockInstance_acquire readLock li ctx w = Inr (r, w')"
    by (simp add: localLockInstance_GetLock_def localLockInstance_GetRLock_def split: if_splits)
  then obtain b w1 where
    run: "lockPaths li ctx readLock 0 (paths li) (replicate (length (paths li)) 0) ?w0
            = Inr (b, w1)"
    and fr: "trace w' = trace w1" "loads (dyn w') = loads (dyn w1)" "snd r = None \<longrightarrow> b"
    by (auto simp: localLockInstance_acquire_def UTCNow_def LogSuccess_def Let_def
          split: sum.splits prod.splits bool.splits)
  from lockPaths_timeouts [OF run] obtain new where
    a: "loads (dyn w1) \<le> loads (dyn w) + length (paths li)"
       "b \<longrightarrow> loads (dyn w1) = loads (dyn w) + length (paths li)"
       "trace w1 = trace w @ new"
       "timeoutsOf new = map (samples (dyn w)) [loads (dyn w) ..< loads (dyn w1)]"
    by auto
  have "(\<forall>k. samples (dyn w) k = c) \<longrightarrow> timeoutsOf new = replicate (length (timeoutsOf new)) c"
  proof
    assume "\<forall>k. samples (dyn w) k = c"
    then have "samples (dyn w) = (\<lambda>k. c)" by (simp add: fun_eq_iff)
    then show "timeoutsOf new = replicate (length (timeoutsOf new)) c"
      unfolding a(4) by (simp add: map_replicate_const)
  qed
  with a fr show ?thesis by auto
qed

theorem local_acquire_loads_timeout_per_path_witness:
  "(if False then localLockInstance_GetRLock exLocal exCtx exWorld
    else localLockInstance_GetLock exLocal exCtx exWorld) = Inr ((Some exCtx, None), exGranted)
   \<and> (\<exists>new. trace exGranted = trace exWorld @ new
          \<and> timeoutsOf new = map (samples (dyn exWorld)) [loads (dyn exWorld) ..< loads (dyn exGranted)]
          \<and> loads (dyn exGranted) = loads (dyn exWorld) + length (paths exLocal))"
proof -
  have run: "(if False then localLockInstance_GetRLock exLocal exCtx exWorld
    else localLockInstance_GetLock exLocal exCtx exWorld) = Inr ((Some exCtx, None), exGranted)"
    using run_exGranted by simp
  from local_acquire_loads_timeout_per_path [OF run] run show ?thesis
    by auto
qed

text \<open>
  C7, as the spec has it, fails: with a \<open>DynamicTimeout\<close> that another acquirer
  adjusts from 5 to 10 after the first load, one \<open>GetLock\<close> on two paths loads the
  timeout twice and passes 5 to the first sub-acquire and 10 to the second.
\<close>

theorem local_acquire_two_timeouts:
  "localLockInstance_GetLock exLocal exCtx exWorld = Inr ((Some exCtx, None), exGranted)
   \<and> trace exWorld = []
   \<and> trace exGranted = [Acquire ''b/a'' False ''op'' 5 True, Acquire ''b/z'' False ''op'' 10 True]
   \<and> timeoutsOf (trace exGranted) = [5, 10]
   \<and> loads (dyn exWorld) = 0 \<and> loads (dyn exGranted) = 2"
  using run_exGranted by (simp add: sample_defs)

subsection \<open>The invariant of the registry\<close>




subsection \<open>Release of a resource that has no entry\<close>

text \<open>
  C8. \<open>NsLockMap.unlock\<close> on a volume and path whose joined resource has no entry in the
  registry map returns at once: the registry, the calls made on mutexes (no \<open>Unlock\<close> and
  no \<open>RUnlock\<close> is added) and everything else are as before, and the call does not stop
  with a fatal error.
\<close>

theorem unlock_absent_returns:
  "lookup (ns w) (pathJoin vol p) = None \<Longrightarrow> NsLockMap_unlock vol p readLock w = Inr w"
  by (simp add: NsLockMap_unlock_def)

theorem unlock_absent_returns_witness:
  "lookup (ns exWorld) (pathJoin ''b'' ''a'') = None
   \<and> NsLockMap_unlock ''b'' ''a'' True exWorld = Inr exWorld"
proof -
  have absent: "lookup (ns exWorld) (pathJoin ''b'' ''a'') = None"
    by (simp add: exWorld_def lookup_def NewNSLock_def)
  from unlock_absent_returns [OF absent] absent show ?thesis
    by simp
qed

subsection \<open>What a local acquire returns\<close>

text \<open>
  C9. A \<open>GetLock\<close> or \<open>GetRLock\<close> of a local instance that returns, returns either the
  caller's own context (not a context derived from it) with no error, or no context
  together with \<open>OperationTimedOut\<close>.
\<close>

theorem local_acquire_returns_ctx_or_timeout:
  "(if readLock then localLockInstance_GetRLock li ctx w else localLockInstance_GetLock li ctx w)
     = Inr ((c, e), w') \<Longrightarrow>
   (e = None \<and> c = Some ctx) \<or> (e = Some OperationTimedOut \<and> c = None)"
  by (auto simp: localLockInstance_GetLock_def localLockInstance_GetRLock_def
        localLockInstance_acquire_def UTCNow_def Let_def
      split: sum.splits prod.splits bool.splits if_splits)

theorem local_acquire_returns_ctx_or_timeout_witness:
  "\<exists>w'. (if False then localLockInstance_GetRLock exLocal exCtx exWorld
          else localLockInstance_GetLock exLocal exCtx exWorld) = Inr ((Some exCtx, None), w')
        \<and> ((None :: lock_error option) = None \<and> Some exCtx = Some exCtx
            \<or> None = Some OperationTimedOut \<and> Some exCtx = None)"
proof -
  have "\<exists>w'. (if False then localLockInstance_GetRLock exLocal exCtx exWorld
          else localLockInstance_GetLock exLocal exCtx exWorld) = Inr ((Some exCtx, None), w')"
    by (simp add: instance_defs registry_defs exLocal_def exCtx_def exWorld_def)
  then obtain w' where run:
    "(if False then localLockInstance_GetRLock exLocal exCtx exWorld
      else localLockInstance_GetLock exLocal exCtx exWorld) = Inr ((Some exCtx, None), w')" ..
  from local_acquire_returns_ctx_or_timeout [OF run] run show ?thesis
    by blast
qed

subsection \<open>The distributed instance\<close>

text \<open>
  C10. A registry created with \<open>isDistErasure\<close> set has the nil map, and
  \<open>NsLockMap.NewNSLock\<close> on it returns a distributed instance over one \<open>DRWMutex\<close> on the
  joined names of all the paths. \<open>GetLock\<close>, \<open>GetRLock\<close>, \<open>Unlock\<close> and \<open>RUnlock\<close> of a
  distributed instance leave the registry as it is (so the map stays nil), and each
  acquire is a single call on that mutex with all the names, with no acquire on a
  mutex of the registry.
\<close>

theorem dist_instance_leaves_registry:
  "isDistErasure (NewNSLock True) \<and> lockMap (NewNSLock True) = None
   \<and> NsLockMap_NewNSLock uuid (NewNSLock True) vol ps
       = Dist \<lparr>rwMutex = \<lparr>Names = map (pathJoin vol) ps\<rparr>, d_opsID = uuid\<rparr>
   \<and> ns (snd (distLockInstance_GetLock di ctx w)) = ns w
   \<and> ns (snd (distLockInstance_GetRLock di ctx w)) = ns w
   \<and> ns (distLockInstance_Unlock di w) = ns w
   \<and> ns (distLockInstance_RUnlock di w) = ns w
   \<and> trace (snd (distLockInstance_GetLock di ctx w))
       = trace w @ [DAcquire False (WithCancel ctx) (Names (rwMutex di)) (d_opsID di)
                      (samples (dyn w) (loads (dyn w)))
                      (DRWMutex_acquire (WithCancel ctx) (samples (dyn w) (loads (dyn w))) w)]
   \<and> trace (snd (distLockInstance_GetRLock di ctx w))
       = trace w @ [DAcquire True ctx (Names (rwMutex di)) (d_opsID di)
                      (samples (dyn w) (loads (dyn w)))
                      (DRWMutex_acquire ctx (samples (dyn w) (loads (dyn w))) w)]"
  by (simp add: NewNSLock_def NsLockMap_NewNSLock_def NewDRWMutex_def pathsJoinPrefix_def
        distLockInstance_GetLock_def distLockInstance_GetRLock_def
        distLockInstance_Unlock_def distLockInstance_RUnlock_def
        UTCNow_def Timeout_def LogSuccess_def LogFailure_def DRWMutex_acquire_def Let_def)

text \<open>
  C6. \<open>distLockInstance.GetRLock\<close> hands the caller's context \<open>ctx\<close> itself to the
  acquire of the \<open>DRWMutex\<close>, which is not the context \<open>newCtx\<close> it has derived with
  \<open>context.WithCancel\<close> and returns on success; \<open>distLockInstance.GetLock\<close> hands
  \<open>newCtx\<close>.
\<close>

theorem dist_GetRLock_hands_caller_context:
  "trace (snd (distLockInstance_GetRLock di ctx w))
     = trace w @ [DAcquire True ctx (Names (rwMutex di)) (d_opsID di)
                    (samples (dyn w) (loads (dyn w)))
                    (DRWMutex_acquire ctx (samples (dyn w) (loads (dyn w))) w)]
   \<and> ctx \<noteq> WithCancel ctx
   \<and> fst (distLockInstance_GetRLock di ctx w)
       = (if DRWMutex_acquire ctx (samples (dyn w) (loads (dyn w))) w
          then (Some (WithCancel ctx), None) else (Some ctx, Some OperationTimedOut))
   \<and> trace (snd (distLockInstance_GetLock di ctx w))
     = trace w @ [DAcquire False (WithCancel ctx) (Names (rwMutex di)) (d_opsID di)
                    (samples (dyn w) (loads (dyn w)))
                    (DRWMutex_acquire (WithCancel ctx) (samples (dyn w) (loads (dyn w))) w)]"
  by (simp add: distLockInstance_GetLock_def distLockInstance_GetRLock_def context_not_own_child
        UTCNow_def Timeout_def LogSuccess_def LogFailure_def DRWMutex_acquire_def Let_def)

subsection \<open>The order of the paths of a new instance\<close>




end
